theory Spec2Isabelle
  imports Complex_Main
begin

section \<open>Analytic accounting: the data model\<close>

text \<open>
  The models of \<^verbatim>\<open>addons/analytic/models/analytic_account.py\<close>. A record set of the
  framework is a list of records (for the groups, whose method reads one record while it
  writes another, a list of identifiers into a table of groups). A many-to-one field is
  the identifier of the record it points to, \<open>None\<close> when the field is empty, which Python
  reads as false; a required many-to-one field is an identifier. A required text field is
  a \<open>string\<close>, one that may be empty is a \<open>string option\<close>. Monetary and float fields are
  Python floats; they are taken as real numbers, so the sums below are exact, and an
  assignment to a field stores the value as it is (what the framework does to a value on
  its way into a field, such as rounding to the precision of a currency, is not part of
  this module). The company of a line is required, and its stored currency follows the
  company, so both are identifiers.
\<close>

type_synonym date = nat

datatype error = ValidationError | MissingError | KeyError | AssertionError

record distribution =
  account_id :: nat
  percentage :: real
  tag_id :: nat

record group =
  id :: nat
  name :: string
  parent_id :: "nat option"
  complete_name :: string

record account =
  id :: nat
  name :: string
  code :: "string option"
  partner_id :: "nat option"
  company_id :: "nat option"
  debit :: real
  credit :: real
  balance :: real

record line =
  id :: nat
  date :: date
  amount :: real
  account_id :: nat
  tag_ids :: "nat list"
  company_id :: nat
  currency_id :: nat
  user_id :: "nat option"

text \<open>
  The keys of the ambient context that this module reads. \<open>from_date\<close> and \<open>to_date\<close> are
  \<open>None\<close> when the key is missing or holds \<open>False\<close> (a date is never false); the two lists
  are \<open>None\<close> when the key is missing, and Python reads an empty list as false too;
  \<open>user_id\<close> is \<open>None\<close> when the key is missing.
\<close>

record "context" =
  from_date :: "date option"
  to_date :: "date option"
  tag_ids :: "nat list option"
  company_ids :: "nat list option"
  user_id :: "nat option"

section \<open>Search filters\<close>

text \<open>
  A filter (a ``domain'') is written by the source as a Python list in prefix notation:
  triples \<^verbatim>\<open>(field, operator, value)\<close> and the strings \<^verbatim>\<open>'&'\<close>, \<^verbatim>\<open>'|'\<close>, \<^verbatim>\<open>'!'\<close>; the
  terms left side by side are joined by an implicit conjunction (the source relies on it
  in \<^verbatim>\<open>domain.append(...)\<close> and \<^verbatim>\<open>domain + args\<close>).
\<close>

datatype operand = Ids "nat list" | Date date | Str string

datatype domain_term =
    AND_OPERATOR
  | OR_OPERATOR
  | NOT_OPERATOR
  | TRUE_LEAF
  | FALSE_LEAF
  | Leaf string string operand

type_synonym domain = "domain_term list"

definition TRUE_DOMAIN :: domain where
  "TRUE_DOMAIN = [TRUE_LEAF]"

definition FALSE_DOMAIN :: domain where
  "FALSE_DOMAIN = [FALSE_LEAF]"

text \<open>
  Modelled from the spec: \<^verbatim>\<open>odoo.osv.expression\<close> (\<^verbatim>\<open>AND\<close>, \<^verbatim>\<open>OR\<close> and their common
  \<^verbatim>\<open>combine\<close>) is not among the sources. The spec describes ``composable filter predicates
  (AND/OR/field-operator-value triples)''. \<open>combine\<close> joins the non-empty filters of a list
  with \<open>count - 1\<close> copies of the binary operator in front, skips the neutral filter and
  returns the absorbing one as soon as it meets it.
\<close>

fun combine_loop :: "domain \<Rightarrow> domain \<Rightarrow> domain list \<Rightarrow> domain \<times> nat \<Rightarrow> domain + domain \<times> nat" where
  "combine_loop unit zero [] (result, count) = Inr (result, count)"
| "combine_loop unit zero (d # ds) (result, count) =
     (if d = unit then combine_loop unit zero ds (result, count)
      else if d = zero then Inl zero
      else if d \<noteq> [] then combine_loop unit zero ds (result @ d, count + 1)
      else combine_loop unit zero ds (result, count))"

definition combine :: "domain_term \<Rightarrow> domain \<Rightarrow> domain \<Rightarrow> domain list \<Rightarrow> domain" where
  "combine operator unit zero domains =
     (case combine_loop unit zero domains ([], 0) of
        Inl z \<Rightarrow> z
      | Inr (result, count) \<Rightarrow> replicate (count - 1) operator @ result)"

definition expression_AND :: "domain list \<Rightarrow> domain" where
  "expression_AND domains = combine AND_OPERATOR TRUE_DOMAIN FALSE_DOMAIN domains"

definition expression_OR :: "domain list \<Rightarrow> domain" where
  "expression_OR domains = combine OR_OPERATOR FALSE_DOMAIN TRUE_DOMAIN domains"

text \<open>
  Modelled from the spec: the evaluation of a filter on one record belongs to the
  framework's query builder, which is not among the sources. A filter in prefix notation is
  read from right to left with a stack of truth values: a triple pushes its value on the
  record, \<^verbatim>\<open>'!'\<close> negates the top, \<^verbatim>\<open>'&'\<close> and \<^verbatim>\<open>'|'\<close> replace the two topmost values;
  an operator that does not find its operands makes the filter malformed (\<open>None\<close>). What
  is left on the stack is joined by the implicit conjunction. The first argument gives the
  value of a triple on the record at hand.
\<close>

fun push_term :: "(string \<Rightarrow> string \<Rightarrow> operand \<Rightarrow> bool) \<Rightarrow> domain_term \<Rightarrow> bool list option \<Rightarrow> bool list option" where
  "push_term sem t None = None"
| "push_term sem (Leaf f operator v) (Some st) = Some (sem f operator v # st)"
| "push_term sem TRUE_LEAF (Some st) = Some (True # st)"
| "push_term sem FALSE_LEAF (Some st) = Some (False # st)"
| "push_term sem NOT_OPERATOR (Some st) =
     (case st of a # st' \<Rightarrow> Some ((\<not> a) # st') | [] \<Rightarrow> None)"
| "push_term sem AND_OPERATOR (Some st) =
     (case st of a # b # st' \<Rightarrow> Some ((a \<and> b) # st') | _ \<Rightarrow> None)"
| "push_term sem OR_OPERATOR (Some st) =
     (case st of a # b # st' \<Rightarrow> Some ((a \<or> b) # st') | _ \<Rightarrow> None)"

definition domain_stack :: "(string \<Rightarrow> string \<Rightarrow> operand \<Rightarrow> bool) \<Rightarrow> domain \<Rightarrow> bool list option" where
  "domain_stack sem d = foldr (push_term sem) d (Some [])"

definition domain_holds :: "(string \<Rightarrow> string \<Rightarrow> operand \<Rightarrow> bool) \<Rightarrow> domain \<Rightarrow> bool option" where
  "domain_holds sem d = map_option (list_all (\<lambda>b. b)) (domain_stack sem d)"

text \<open>
  Modelled from the spec: the meaning of the triples that the balance aggregator writes,
  on an analytic line. \<^verbatim>\<open>('account_id', 'in', ids)\<close> and \<^verbatim>\<open>('company_id', 'in', ids)\<close>
  hold when the line's account, or company, is one of \<open>ids\<close>; \<^verbatim>\<open>('date', '>=', d)\<close>
  and \<^verbatim>\<open>('date', '<=', d)\<close> compare the line's date with \<open>d\<close>; \<^verbatim>\<open>('tag_ids', 'in', ids)\<close>
  holds when one of the line's tags is in \<open>ids\<close>. No other triple is used on lines here.
\<close>

definition line_leaf :: "line \<Rightarrow> string \<Rightarrow> string \<Rightarrow> operand \<Rightarrow> bool" where
  "line_leaf l f operator v =
     (if f = ''account_id'' \<and> operator = ''in''
        then (case v of Ids xs \<Rightarrow> line.account_id l \<in> set xs | _ \<Rightarrow> False)
      else if f = ''date'' \<and> operator = ''>=''
        then (case v of Date d \<Rightarrow> d \<le> line.date l | _ \<Rightarrow> False)
      else if f = ''date'' \<and> operator = ''<=''
        then (case v of Date d \<Rightarrow> line.date l \<le> d | _ \<Rightarrow> False)
      else if f = ''tag_ids'' \<and> operator = ''in''
        then (case v of Ids xs \<Rightarrow> set (line.tag_ids l) \<inter> set xs \<noteq> {} | _ \<Rightarrow> False)
      else if f = ''company_id'' \<and> operator = ''in''
        then (case v of Ids xs \<Rightarrow> line.company_id l \<in> set xs | _ \<Rightarrow> False)
      else False)"

text \<open>
  Modelled from the spec: \<^verbatim>\<open>search_read\<close> of the framework, on the table of analytic
  lines: the lines of the table on which the filter holds (``Fetch all matching Lines'');
  a malformed filter is refused.
\<close>

definition search_read :: "line list \<Rightarrow> domain \<Rightarrow> error + line list" where
  "search_read table d =
     (if domain_stack (\<lambda>f operator v. True) d = None then Inl AssertionError
      else Inr (filter (\<lambda>l. domain_holds (line_leaf l) d = Some True) table))"

section \<open>The balance aggregator\<close>

text \<open>
  What \<^verbatim>\<open>_compute_debit_credit_balance\<close> reads from its environment: the ambient context,
  the currency of the acting user's company, the conversion service
  (\<open>currency_compute c x u\<close> stands for \<^verbatim>\<open>res_currency_obj.browse(c).compute(x, u)\<close>, which
  is not part of this module) and the table of analytic lines.
\<close>

record env =
  "context" :: "context"
  uid :: nat
  user_currency :: nat
  currency_compute :: "nat \<Rightarrow> real \<Rightarrow> nat \<Rightarrow> real"
  analytic_lines :: "line list"

text \<open>Lines 66 to 75: the filter on the analytic lines.\<close>

definition debit_credit_balance_domain :: "context \<Rightarrow> account list \<Rightarrow> domain" where
  "debit_credit_balance_domain ctx self =
     (let domain = [Leaf ''account_id'' ''in'' (Ids (map account.id self))];
          domain = (case context.from_date ctx of
                      Some d \<Rightarrow> domain @ [Leaf ''date'' ''>='' (Date d)]
                    | None \<Rightarrow> domain);
          domain = (case context.to_date ctx of
                      Some d \<Rightarrow> domain @ [Leaf ''date'' ''<='' (Date d)]
                    | None \<Rightarrow> domain);
          domain = (case context.tag_ids ctx of
                      Some (t # ts) \<Rightarrow>
                        expression_AND
                          [domain,
                           expression_OR (map (\<lambda>tag. [Leaf ''tag_ids'' ''in'' (Ids [tag])]) (t # ts))]
                    | _ \<Rightarrow> domain);
          domain = (case context.company_ids ctx of
                      Some (c # cs) \<Rightarrow> domain @ [Leaf ''company_id'' ''in'' (Ids (c # cs))]
                    | _ \<Rightarrow> domain)
      in domain)"

text \<open>
  Lines 82 to 88: the loop over the fetched lines. The two dictionaries are maps;
  \<^verbatim>\<open>d[k] += x\<close> on a key that the dictionary does not hold raises \<^verbatim>\<open>KeyError\<close>.
\<close>

fun accumulate :: "env \<Rightarrow> (nat \<rightharpoonup> real) \<times> (nat \<rightharpoonup> real) \<Rightarrow> line list \<Rightarrow> error + (nat \<rightharpoonup> real) \<times> (nat \<rightharpoonup> real)" where
  "accumulate e (data_debit, data_credit) [] = Inr (data_debit, data_credit)"
| "accumulate e (data_debit, data_credit) (account_amount # rest) =
     (let amount = currency_compute e (line.currency_id account_amount) (line.amount account_amount)
                     (user_currency e)
      in if amount < 0
         then (case data_debit (line.account_id account_amount) of
                 None \<Rightarrow> Inl KeyError
               | Some v \<Rightarrow>
                   accumulate e (data_debit(line.account_id account_amount \<mapsto> v + amount), data_credit) rest)
         else (case data_credit (line.account_id account_amount) of
                 None \<Rightarrow> Inl KeyError
               | Some v \<Rightarrow>
                   accumulate e (data_debit, data_credit(line.account_id account_amount \<mapsto> v + amount)) rest))"

text \<open>Lines 90 to 93: the three fields of one account, from the two dictionaries.\<close>

definition set_debit_credit_balance :: "(nat \<rightharpoonup> real) \<Rightarrow> (nat \<rightharpoonup> real) \<Rightarrow> account \<Rightarrow> account" where
  "set_debit_credit_balance data_debit data_credit a =
     (let a = a\<lparr>debit := \<bar>case data_debit (account.id a) of Some v \<Rightarrow> v | None \<Rightarrow> 0\<bar>\<rparr>;
          a = a\<lparr>credit := (case data_credit (account.id a) of Some v \<Rightarrow> v | None \<Rightarrow> 0)\<rparr>;
          a = a\<lparr>balance := account.credit a - account.debit a\<rparr>
      in a)"

definition compute_debit_credit_balance :: "env \<Rightarrow> account list \<Rightarrow> error + account list" where
  "compute_debit_credit_balance e self =
     (case search_read (analytic_lines e) (debit_credit_balance_domain (env.context e) self) of
        Inl err \<Rightarrow> Inl err
      | Inr account_amounts \<Rightarrow>
          (let account_ids = map line.account_id account_amounts;
               data_debit = map_of (map (\<lambda>account_id. (account_id, 0)) account_ids);
               data_credit = map_of (map (\<lambda>account_id. (account_id, 0)) account_ids)
           in case accumulate e (data_debit, data_credit) account_amounts of
                Inl err \<Rightarrow> Inl err
              | Inr (data_debit, data_credit) \<Rightarrow>
                  Inr (map (set_debit_credit_balance data_debit data_credit) self)))"

text \<open>
  To state what the aggregator computes: the lines of the table that the filter keeps, and
  the converted amounts of the lines of one account among some fetched lines, in the order
  of the lines.
\<close>

definition matching_lines :: "env \<Rightarrow> account list \<Rightarrow> line list" where
  "matching_lines e self =
     filter (\<lambda>l. domain_holds (line_leaf l) (debit_credit_balance_domain (env.context e) self) = Some True)
       (analytic_lines e)"

definition converted_amounts :: "env \<Rightarrow> line list \<Rightarrow> nat \<Rightarrow> real list" where
  "converted_amounts e rows k =
     map (\<lambda>l. currency_compute e (line.currency_id l) (line.amount l) (user_currency e))
       (filter (\<lambda>l. line.account_id l = k) rows)"

section \<open>The percentage of a distribution\<close>

text \<open>
  Lines 18 to 21: the one entry of \<^verbatim>\<open>_sql_constraints\<close>,
  \<^verbatim>\<open>CHECK(percentage >= 0 AND percentage <= 100)\<close>, as a predicate on the row.
\<close>

definition check_percentage :: "distribution \<Rightarrow> bool" where
  "check_percentage d = (distribution.percentage d \<ge> 0 \<and> distribution.percentage d \<le> 100)"

definition sql_constraints :: "(string \<times> (distribution \<Rightarrow> bool) \<times> string) list" where
  "sql_constraints =
     [(''check_percentage'', check_percentage,
       ''The percentage of an analytic distribution should be between 0 and 100.'')]"

text \<open>
  Modelled from the spec: \<^verbatim>\<open>create\<close> of the framework and the data store behind it are
  not among the sources. The spec has the bound ``enforced at the data-store level'' and a
  violation ``raised synchronously'' as a validation error, ``aborting the in-progress
  write'': the store adds the row when every declared check holds on it and refuses it
  otherwise.
\<close>

definition create_distribution :: "distribution list \<Rightarrow> distribution \<Rightarrow> error + distribution list" where
  "create_distribution table d =
     (if list_all (\<lambda>(key, check, message). check d) sql_constraints then Inr (table @ [d])
      else Inl ValidationError)"

section \<open>The complete name of a group\<close>

text \<open>
  Lines 48 to 54: \<^verbatim>\<open>_compute_complete_name\<close>. The groups live in a table; the method goes
  through the identifiers of \<^verbatim>\<open>self\<close>, reads the parent's stored \<^verbatim>\<open>complete_name\<close> and
  writes the group's own, so a later iteration sees what an earlier one wrote. Reading a
  record that the table does not hold is the framework's \<^verbatim>\<open>MissingError\<close>.
\<close>

fun compute_complete_name :: "(nat \<rightharpoonup> group) \<Rightarrow> nat list \<Rightarrow> error + (nat \<rightharpoonup> group)" where
  "compute_complete_name s [] = Inr s"
| "compute_complete_name s (g # self) =
     (case s g of
        None \<Rightarrow> Inl MissingError
      | Some grp \<Rightarrow>
          (case group.parent_id grp of
             Some p \<Rightarrow>
               (case s p of
                  None \<Rightarrow> Inl MissingError
                | Some parent \<Rightarrow>
                    compute_complete_name
                      (s(g \<mapsto> grp\<lparr>complete_name := group.complete_name parent @ '' / '' @ group.name grp\<rparr>))
                      self)
           | None \<Rightarrow>
               compute_complete_name (s(g \<mapsto> grp\<lparr>complete_name := group.name grp\<rparr>)) self))"

text \<open>
  The records that a run over \<open>self\<close> reads are in the table: every group of \<open>self\<close> and
  the parent of each.
\<close>

fun groups_present :: "(nat \<rightharpoonup> group) \<Rightarrow> nat list \<Rightarrow> bool" where
  "groups_present s [] = True"
| "groups_present s (g # self) =
     ((case s g of
         None \<Rightarrow> False
       | Some grp \<Rightarrow> (case group.parent_id grp of None \<Rightarrow> True | Some p \<Rightarrow> s p \<noteq> None))
      \<and> groups_present s self)"

section \<open>The display name of an account and the search by name\<close>

text \<open>
  Lines 114 to 124: \<^verbatim>\<open>name_get\<close>. The partner model is not part of this module:
  \<open>partner_name p\<close> stands for the framework's read of
  \<^verbatim>\<open>partner_id.commercial_partner_id.name\<close> on the partner \<open>p\<close>. Python reads both a
  missing code and an empty one as false.
\<close>

definition name_get :: "(nat \<Rightarrow> string) \<Rightarrow> account list \<Rightarrow> (nat \<times> string) list" where
  "name_get partner_name self =
     map (\<lambda>analytic.
            let name = account.name analytic;
                name = (case account.code analytic of
                          Some c \<Rightarrow> if c \<noteq> [] then ''['' @ c @ ''] '' @ name else name
                        | None \<Rightarrow> name);
                name = (case account.partner_id analytic of
                          Some p \<Rightarrow> name @ '' - '' @ partner_name p
                        | None \<Rightarrow> name)
            in (account.id analytic, name))
       self"

text \<open>
  What \<^verbatim>\<open>name_search\<close> calls in the framework: the default \<^verbatim>\<open>name_search\<close> of the
  parent class, the search of partners (returning their identifiers), the search of
  accounts, and the read of a partner's commercial name. They are parameters. A limit is
  a number or \<^verbatim>\<open>None\<close>.
\<close>

record framework =
  super_name_search :: "string \<Rightarrow> domain option \<Rightarrow> string \<Rightarrow> nat option \<Rightarrow> (nat \<times> string) list"
  partner_search :: "domain \<Rightarrow> nat option \<Rightarrow> nat list"
  account_search :: "domain \<Rightarrow> nat option \<Rightarrow> account list"
  commercial_partner_name :: "nat \<Rightarrow> string"

text \<open>
  Lines 126 to 136; \<open>name'\<close> is the argument \<^verbatim>\<open>name\<close>. \<^verbatim>\<open>args or []\<close> turns a missing
  filter into the empty one.
\<close>

definition name_search :: "framework \<Rightarrow> string \<Rightarrow> domain option \<Rightarrow> string \<Rightarrow> nat option \<Rightarrow> (nat \<times> string) list" where
  "name_search fw name' args operator limit =
     (if operator \<notin> set [''ilike'', ''like'', ''='', ''=like'', ''=ilike'']
      then super_name_search fw name' args operator limit
      else
        let args = (case args of Some a \<Rightarrow> a | None \<Rightarrow> []);
            domain = [OR_OPERATOR, Leaf ''code'' operator (Str name'), Leaf ''name'' operator (Str name')];
            partners = partner_search fw [Leaf ''name'' operator (Str name')] limit;
            domain = (if partners \<noteq> []
                      then [OR_OPERATOR] @ domain @ [Leaf ''partner_id'' ''in'' (Ids partners)]
                      else domain);
            recs = account_search fw (domain @ args) limit
        in name_get (commercial_partner_name fw) recs)"

section \<open>Analytic lines: the default user and the company check\<close>

text \<open>Lines 144 to 146: \<^verbatim>\<open>_default_user\<close>, a \<^verbatim>\<open>dict.get\<close> with a default.\<close>

definition default_user :: "env \<Rightarrow> nat" where
  "default_user e =
     (case context.user_id (env.context e) of Some u \<Rightarrow> u | None \<Rightarrow> uid e)"

text \<open>
  Modelled from the spec: the framework's use of a field default is not among the sources;
  the spec speaks of ``field defaults'' applied when a record is created, and line 154
  declares \<^verbatim>\<open>default=_default_user\<close> for \<^verbatim>\<open>user_id\<close>. The values given to \<^verbatim>\<open>create\<close>
  either hold the key \<^verbatim>\<open>user_id\<close> (\<open>Some v\<close>, where \<open>v\<close> may be empty) or do not
  (\<open>None\<close>), and then the default is called.
\<close>

definition create_user_id :: "env \<Rightarrow> nat option option \<Rightarrow> nat option" where
  "create_user_id e vals_user_id =
     (case vals_user_id of Some v \<Rightarrow> v | None \<Rightarrow> Some (default_user e))"

text \<open>
  Lines 160 to 165: \<^verbatim>\<open>_check_company_id\<close>. The accounts live in a table; a line whose
  account the table does not hold makes the read fail with \<^verbatim>\<open>MissingError\<close>. The
  framework calls the method after a create or a write on the lines, and the exception
  leaves the method, and with it the write, without a result.
\<close>

fun check_company_id :: "(nat \<rightharpoonup> account) \<Rightarrow> line list \<Rightarrow> error + unit" where
  "check_company_id accounts [] = Inr ()"
| "check_company_id accounts (l # self) =
     (case accounts (line.account_id l) of
        None \<Rightarrow> Inl MissingError
      | Some a \<Rightarrow>
          (case account.company_id a of
             Some c \<Rightarrow>
               if line.company_id l \<noteq> c then Inl ValidationError
               else check_company_id accounts self
           | None \<Rightarrow> check_company_id accounts self))"

section \<open>Example data\<close>

text \<open>
  The examples of the specification: an account A with the two lines of amounts \<open>-50\<close> and
  \<open>30\<close> in the reference currency (currency \<open>1\<close>), an account B without lines, the account
  ``Sales'' with code ``X1'' and partner ``Acme'', and the same account without code and
  partner. The conversion of the example leaves an amount of the reference currency as it
  is and doubles any other.
\<close>

definition account_A :: account where
  "account_A = \<lparr>account.id = 1, name = ''A'', code = None, partner_id = None, company_id = Some 1,
                 debit = 0, credit = 0, balance = 0\<rparr>"

definition account_B :: account where
  "account_B = \<lparr>account.id = 2, name = ''B'', code = None, partner_id = None, company_id = None,
                 debit = 0, credit = 0, balance = 0\<rparr>"

definition line_L1 :: line where
  "line_L1 = \<lparr>line.id = 1, date = 15, amount = - 50, account_id = 1, tag_ids = [2], company_id = 1,
               currency_id = 1, user_id = None\<rparr>"

definition line_L2 :: line where
  "line_L2 = \<lparr>line.id = 2, date = 16, amount = 30, account_id = 1, tag_ids = [], company_id = 1,
               currency_id = 1, user_id = None\<rparr>"

definition no_context :: "context" where
  "no_context = \<lparr>from_date = None, to_date = None, tag_ids = None, company_ids = None, user_id = None\<rparr>"

definition full_context :: "context" where
  "full_context = \<lparr>from_date = Some 10, to_date = Some 20, tag_ids = Some [1, 2],
                    company_ids = Some [1], user_id = Some 9\<rparr>"

definition example_env :: env where
  "example_env = \<lparr>context = no_context, uid = 3, user_currency = 1,
                   currency_compute = (\<lambda>c x u. if c = u then x else 2 * x),
                   analytic_lines = [line_L1, line_L2]\<rparr>"

definition sales_X1 :: account where
  "sales_X1 = \<lparr>account.id = 1, name = ''Sales'', code = Some ''X1'', partner_id = Some 7,
                company_id = None, debit = 0, credit = 0, balance = 0\<rparr>"

definition sales_plain :: account where
  "sales_plain = \<lparr>account.id = 2, name = ''Sales'', code = None, partner_id = None,
                   company_id = None, debit = 0, credit = 0, balance = 0\<rparr>"

definition example_framework :: framework where
  "example_framework =
     \<lparr>super_name_search = (\<lambda>name' args operator limit. [(2, ''Sales'')]),
      partner_search = (\<lambda>d limit. [7]),
      account_search = (\<lambda>d limit. [sales_X1]),
      commercial_partner_name = (\<lambda>p. ''Acme'')\<rparr>"

definition example_groups :: "nat \<rightharpoonup> group" where
  "example_groups =
     [1 \<mapsto> \<lparr>group.id = 1, name = ''Projects'', parent_id = None, complete_name = []\<rparr>,
      2 \<mapsto> \<lparr>group.id = 2, name = ''Internal'', parent_id = Some 1, complete_name = []\<rparr>]"

section \<open>Properties of the search filters\<close>

lemma combine_loop_leaves:
  "combine_loop FALSE_DOMAIN TRUE_DOMAIN (map (\<lambda>tag. [Leaf f operator (v tag)]) ts) (res, n)
     = Inr (res @ map (\<lambda>tag. Leaf f operator (v tag)) ts, n + length ts)"
  by (induction ts arbitrary: res n) (simp_all add: FALSE_DOMAIN_def TRUE_DOMAIN_def)

lemma expression_OR_leaves:
  "expression_OR (map (\<lambda>tag. [Leaf f operator (v tag)]) ts)
     = replicate (length ts - 1) OR_OPERATOR @ map (\<lambda>tag. Leaf f operator (v tag)) ts"
  by (simp add: expression_OR_def combine_def combine_loop_leaves)

lemma expression_AND_pair:
  assumes "d1 \<noteq> []" "d1 \<noteq> TRUE_DOMAIN" "d1 \<noteq> FALSE_DOMAIN"
      and "d2 \<noteq> []" "d2 \<noteq> TRUE_DOMAIN" "d2 \<noteq> FALSE_DOMAIN"
  shows "expression_AND [d1, d2] = AND_OPERATOR # d1 @ d2"
  using assms by (simp add: expression_AND_def combine_def)

lemma foldr_push_leaves:
  "foldr (push_term sem) (map (\<lambda>tag. Leaf f operator (v tag)) ts) (Some st)
     = Some (map (\<lambda>tag. sem f operator (v tag)) ts @ st)"
  by (induction ts) simp_all

lemma foldr_push_ors:
  "length vs = Suc n \<Longrightarrow>
   foldr (push_term sem) (replicate n OR_OPERATOR) (Some (vs @ st))
     = Some (list_ex (\<lambda>b. b) vs # st)"
proof (induction n arbitrary: vs st)
  case 0
  then obtain v where "vs = [v]" by (cases vs) auto
  then show ?case by simp
next
  case (Suc n)
  then obtain a b ws where vs: "vs = a # b # ws" by (cases vs; cases "tl vs") auto
  have "replicate (Suc n) OR_OPERATOR = replicate n OR_OPERATOR @ [OR_OPERATOR]"
    by (simp add: replicate_append_same)
  then have "foldr (push_term sem) (replicate (Suc n) OR_OPERATOR) (Some (vs @ st))
     = foldr (push_term sem) (replicate n OR_OPERATOR) (Some (((a \<or> b) # ws) @ st))"
    by (simp add: vs)
  also have "\<dots> = Some (list_ex (\<lambda>b. b) ((a \<or> b) # ws) # st)"
    using Suc.prems by (intro Suc.IH) (simp add: vs)
  finally show ?case by (simp add: vs)
qed

lemma domain_stack_OR_leaves:
  assumes "ts \<noteq> []"
  shows "foldr (push_term sem) (expression_OR (map (\<lambda>tag. [Leaf f operator (v tag)]) ts)) (Some st)
     = Some ((\<exists>tag \<in> set ts. sem f operator (v tag)) # st)"
proof -
  have len: "length (map (\<lambda>tag. sem f operator (v tag)) ts) = Suc (length ts - 1)"
    using assms by (cases ts) simp_all
  have "foldr (push_term sem) (expression_OR (map (\<lambda>tag. [Leaf f operator (v tag)]) ts)) (Some st)
      = foldr (push_term sem) (replicate (length ts - 1) OR_OPERATOR)
          (Some (map (\<lambda>tag. sem f operator (v tag)) ts @ st))"
    by (simp only: expression_OR_leaves foldr_append foldr_push_leaves)
  also have "\<dots> = Some (list_ex (\<lambda>b. b) (map (\<lambda>tag. sem f operator (v tag)) ts) # st)"
    by (rule foldr_push_ors [OF len])
  finally show ?thesis by (simp add: list_ex_iff)
qed

lemma expression_OR_tags:
  "expression_OR (map (\<lambda>tag. [Leaf ''tag_ids'' ''in'' (Ids [tag])]) (t # ts))
     = replicate (length ts) OR_OPERATOR @ map (\<lambda>tag. Leaf ''tag_ids'' ''in'' (Ids [tag])) (t # ts)"
  using expression_OR_leaves [of "''tag_ids''" "''in''" "\<lambda>tag. Ids [tag]" "t # ts"]
  by simp

lemma expression_AND_tags:
  "expression_AND [Leaf f operator v # d, expression_OR (map (\<lambda>tag. [Leaf ''tag_ids'' ''in'' (Ids [tag])]) (t # ts))]
     = AND_OPERATOR # (Leaf f operator v # d)
         @ expression_OR (map (\<lambda>tag. [Leaf ''tag_ids'' ''in'' (Ids [tag])]) (t # ts))"
proof -
  have "expression_OR (map (\<lambda>tag. [Leaf ''tag_ids'' ''in'' (Ids [tag])]) (t # ts)) \<noteq> []"
       "expression_OR (map (\<lambda>tag. [Leaf ''tag_ids'' ''in'' (Ids [tag])]) (t # ts)) \<noteq> TRUE_DOMAIN"
       "expression_OR (map (\<lambda>tag. [Leaf ''tag_ids'' ''in'' (Ids [tag])]) (t # ts)) \<noteq> FALSE_DOMAIN"
    unfolding expression_OR_tags by (cases ts; simp add: TRUE_DOMAIN_def FALSE_DOMAIN_def)+
  moreover have "Leaf f operator v # d \<noteq> []" "Leaf f operator v # d \<noteq> TRUE_DOMAIN"
    "Leaf f operator v # d \<noteq> FALSE_DOMAIN"
    by (simp_all add: TRUE_DOMAIN_def FALSE_DOMAIN_def)
  ultimately show ?thesis by (rule expression_AND_pair [rotated 3])
qed

lemma debit_credit_balance_domain_shape:
  "debit_credit_balance_domain ctx self =
     (case context.tag_ids ctx of Some (t # ts) \<Rightarrow> [AND_OPERATOR] | _ \<Rightarrow> [])
     @ [Leaf ''account_id'' ''in'' (Ids (map account.id self))]
     @ (case context.from_date ctx of Some d \<Rightarrow> [Leaf ''date'' ''>='' (Date d)] | None \<Rightarrow> [])
     @ (case context.to_date ctx of Some d \<Rightarrow> [Leaf ''date'' ''<='' (Date d)] | None \<Rightarrow> [])
     @ (case context.tag_ids ctx of
          Some (t # ts) \<Rightarrow> expression_OR (map (\<lambda>tag. [Leaf ''tag_ids'' ''in'' (Ids [tag])]) (t # ts))
        | _ \<Rightarrow> [])
     @ (case context.company_ids ctx of
          Some (c # cs) \<Rightarrow> [Leaf ''company_id'' ''in'' (Ids (c # cs))] | _ \<Rightarrow> [])"
proof (cases "context.tag_ids ctx")
  case None
  then show ?thesis
    by (simp add: debit_credit_balance_domain_def split: option.split list.split)
next
  case (Some tags)
  show ?thesis
  proof (cases tags)
    case Nil
    with Some show ?thesis
      by (simp add: debit_credit_balance_domain_def split: option.split list.split)
  next
    case (Cons t ts)
    with Some show ?thesis
      by (simp add: debit_credit_balance_domain_def expression_AND_tags del: list.map
            split: option.split list.split)
  qed
qed

lemma push_AND_all:
  "2 \<le> length st \<Longrightarrow>
   \<exists>st'. push_term sem AND_OPERATOR (Some st) = Some st' \<and>
     list_all (\<lambda>b. b) st' = list_all (\<lambda>b. b) st"
  by (cases st; cases "tl st") auto

lemma foldr_push_tags:
  "foldr (push_term sem) (expression_OR (map (\<lambda>tag. [Leaf ''tag_ids'' ''in'' (Ids [tag])]) (t # ts))) (Some st)
     = Some ((\<exists>tag \<in> set (t # ts). sem ''tag_ids'' ''in'' (Ids [tag])) # st)"
  using domain_stack_OR_leaves [of "t # ts" sem "''tag_ids''" "''in''" "\<lambda>tag. Ids [tag]" st]
  by simp

lemma domain_stack_debit_credit_balance_domain:
  "\<exists>st. domain_stack sem (debit_credit_balance_domain ctx self) = Some st \<and>
     list_all (\<lambda>b. b) st =
       (sem ''account_id'' ''in'' (Ids (map account.id self))
        \<and> (case context.from_date ctx of Some d \<Rightarrow> sem ''date'' ''>='' (Date d) | None \<Rightarrow> True)
        \<and> (case context.to_date ctx of Some d \<Rightarrow> sem ''date'' ''<='' (Date d) | None \<Rightarrow> True)
        \<and> (case context.tag_ids ctx of
              Some (t # ts) \<Rightarrow> (\<exists>tag \<in> set (t # ts). sem ''tag_ids'' ''in'' (Ids [tag]))
            | _ \<Rightarrow> True)
        \<and> (case context.company_ids ctx of
              Some (c # cs) \<Rightarrow> sem ''company_id'' ''in'' (Ids (c # cs)) | _ \<Rightarrow> True))"
proof -
  define cp where "cp = (case context.company_ids ctx of
          Some (c # cs) \<Rightarrow> [Leaf ''company_id'' ''in'' (Ids (c # cs))] | _ \<Rightarrow> [])"
  define cpv where "cpv = (case context.company_ids ctx of
          Some (c # cs) \<Rightarrow> [sem ''company_id'' ''in'' (Ids (c # cs))] | _ \<Rightarrow> [])"
  define tg where "tg = (case context.tag_ids ctx of
          Some (t # ts) \<Rightarrow> expression_OR (map (\<lambda>tag. [Leaf ''tag_ids'' ''in'' (Ids [tag])]) (t # ts))
        | _ \<Rightarrow> [])"
  define tgv where "tgv = (case context.tag_ids ctx of
          Some (t # ts) \<Rightarrow> [\<exists>tag \<in> set (t # ts). sem ''tag_ids'' ''in'' (Ids [tag])]
        | _ \<Rightarrow> [])"
  define ds where "ds = (case context.from_date ctx of Some d \<Rightarrow> [Leaf ''date'' ''>='' (Date d)] | None \<Rightarrow> [])
     @ (case context.to_date ctx of Some d \<Rightarrow> [Leaf ''date'' ''<='' (Date d)] | None \<Rightarrow> [])"
  define dsv where "dsv = (case context.from_date ctx of Some d \<Rightarrow> [sem ''date'' ''>='' (Date d)] | None \<Rightarrow> [])
     @ (case context.to_date ctx of Some d \<Rightarrow> [sem ''date'' ''<='' (Date d)] | None \<Rightarrow> [])"
  define a where "a = sem ''account_id'' ''in'' (Ids (map account.id self))"
  define hd where "hd = (case context.tag_ids ctx of Some (t # ts) \<Rightarrow> [AND_OPERATOR] | _ \<Rightarrow> [])"
  have shape: "debit_credit_balance_domain ctx self
      = hd @ [Leaf ''account_id'' ''in'' (Ids (map account.id self))] @ ds @ tg @ cp"
    unfolding debit_credit_balance_domain_shape hd_def ds_def tg_def cp_def by simp
  have s1: "foldr (push_term sem) cp (Some []) = Some cpv"
    unfolding cp_def cpv_def by (simp split: option.split list.split)
  have s2: "foldr (push_term sem) tg (Some cpv) = Some (tgv @ cpv)"
    unfolding tg_def tgv_def by (simp add: foldr_push_tags del: list.map set_simps split: option.split list.split)
  have s3: "foldr (push_term sem) ds (Some (tgv @ cpv)) = Some (dsv @ tgv @ cpv)"
    unfolding ds_def dsv_def by (simp split: option.split)
  have s4: "foldr (push_term sem) ([Leaf ''account_id'' ''in'' (Ids (map account.id self))] @ ds @ tg @ cp) (Some [])
      = Some (a # dsv @ tgv @ cpv)"
    by (simp only: foldr_append o_apply s1 s2 s3) (simp add: a_def)
  have all: "list_all (\<lambda>b. b) (a # dsv @ tgv @ cpv) =
       (sem ''account_id'' ''in'' (Ids (map account.id self))
        \<and> (case context.from_date ctx of Some d \<Rightarrow> sem ''date'' ''>='' (Date d) | None \<Rightarrow> True)
        \<and> (case context.to_date ctx of Some d \<Rightarrow> sem ''date'' ''<='' (Date d) | None \<Rightarrow> True)
        \<and> (case context.tag_ids ctx of
              Some (t # ts) \<Rightarrow> (\<exists>tag \<in> set (t # ts). sem ''tag_ids'' ''in'' (Ids [tag]))
            | _ \<Rightarrow> True)
        \<and> (case context.company_ids ctx of
              Some (c # cs) \<Rightarrow> sem ''company_id'' ''in'' (Ids (c # cs)) | _ \<Rightarrow> True))"
    unfolding a_def dsv_def tgv_def cpv_def
    by (simp del: set_simps split: option.split list.split)
  show ?thesis
  proof (cases "hd = []")
    case True
    then show ?thesis
      unfolding domain_stack_def shape using s4 all by simp
  next
    case False
    then have hd: "hd = [AND_OPERATOR]" and "tgv \<noteq> []"
      unfolding hd_def tgv_def by (simp_all split: option.splits list.splits)
    then have "2 \<le> length (a # dsv @ tgv @ cpv)"
      by (cases tgv) simp_all
    from push_AND_all [OF this, of sem]
    obtain st' where "push_term sem AND_OPERATOR (Some (a # dsv @ tgv @ cpv)) = Some st'"
      and "list_all (\<lambda>b. b) st' = list_all (\<lambda>b. b) (a # dsv @ tgv @ cpv)"
      by blast
    then show ?thesis
      unfolding domain_stack_def shape hd using s4 all by simp
  qed
qed

text \<open>
  Claim C7. The filter that the balance aggregator builds holds on a line exactly when the
  line's account is one of the given accounts, and its date is not before \<open>from_date\<close>
  when that is supplied, and not after \<open>to_date\<close> when that is supplied, and one of the
  given tags is among the line's tags when a non-empty list of tags is supplied, and its
  company is one of the given companies when a non-empty list of companies is supplied.
  The filter is never malformed.
\<close>

theorem debit_credit_balance_domain_conjunction:
  "domain_holds (line_leaf l) (debit_credit_balance_domain ctx self) =
     Some (line.account_id l \<in> set (map account.id self)
           \<and> (case context.from_date ctx of Some d \<Rightarrow> d \<le> line.date l | None \<Rightarrow> True)
           \<and> (case context.to_date ctx of Some d \<Rightarrow> line.date l \<le> d | None \<Rightarrow> True)
           \<and> (case context.tag_ids ctx of
                 Some (t # ts) \<Rightarrow> (\<exists>tag \<in> set (t # ts). tag \<in> set (line.tag_ids l))
               | _ \<Rightarrow> True)
           \<and> (case context.company_ids ctx of
                 Some (c # cs) \<Rightarrow> line.company_id l \<in> set (c # cs)
               | _ \<Rightarrow> True))"
proof -
  from domain_stack_debit_credit_balance_domain [of "line_leaf l" ctx self]
  obtain st where st: "domain_stack (line_leaf l) (debit_credit_balance_domain ctx self) = Some st"
    and all: "list_all (\<lambda>b. b) st =
       (line_leaf l ''account_id'' ''in'' (Ids (map account.id self))
        \<and> (case context.from_date ctx of Some d \<Rightarrow> line_leaf l ''date'' ''>='' (Date d) | None \<Rightarrow> True)
        \<and> (case context.to_date ctx of Some d \<Rightarrow> line_leaf l ''date'' ''<='' (Date d) | None \<Rightarrow> True)
        \<and> (case context.tag_ids ctx of
              Some (t # ts) \<Rightarrow> (\<exists>tag \<in> set (t # ts). line_leaf l ''tag_ids'' ''in'' (Ids [tag]))
            | _ \<Rightarrow> True)
        \<and> (case context.company_ids ctx of
              Some (c # cs) \<Rightarrow> line_leaf l ''company_id'' ''in'' (Ids (c # cs)) | _ \<Rightarrow> True))"
    by blast
  have leaves:
    "line_leaf l ''account_id'' ''in'' (Ids xs) = (line.account_id l \<in> set xs)"
    "line_leaf l ''date'' ''>='' (Date d) = (d \<le> line.date l)"
    "line_leaf l ''date'' ''<='' (Date d) = (line.date l \<le> d)"
    "line_leaf l ''tag_ids'' ''in'' (Ids [tag]) = (tag \<in> set (line.tag_ids l))"
    "line_leaf l ''company_id'' ''in'' (Ids xs) = (line.company_id l \<in> set xs)"
    for xs d tag
    by (simp_all add: line_leaf_def)
  show ?thesis
    unfolding domain_holds_def st option.map all leaves ..
qed

theorem debit_credit_balance_domain_conjunction_witness:
  "domain_holds (line_leaf line_L1) (debit_credit_balance_domain full_context [account_A]) = Some True
   \<and> domain_holds (line_leaf line_L2) (debit_credit_balance_domain full_context [account_A]) = Some False
   \<and> domain_holds (line_leaf line_L2) (debit_credit_balance_domain no_context [account_A]) = Some True"
  unfolding debit_credit_balance_domain_conjunction
  by (simp add: line_L1_def line_L2_def full_context_def no_context_def account_A_def)

section \<open>Properties of the balance aggregator\<close>

lemma accumulate_sums:
  assumes "\<forall>l \<in> set rows. data_debit (line.account_id l) \<noteq> None \<and> data_credit (line.account_id l) \<noteq> None"
  shows "accumulate e (data_debit, data_credit) rows =
           Inr (\<lambda>k. map_option (\<lambda>v. v + sum_list (filter (\<lambda>x. x < 0) (converted_amounts e rows k))) (data_debit k),
                \<lambda>k. map_option (\<lambda>v. v + sum_list (filter (\<lambda>x. 0 \<le> x) (converted_amounts e rows k))) (data_credit k))"
  using assms
proof (induction rows arbitrary: data_debit data_credit)
  case Nil
  then show ?case by (simp add: converted_amounts_def option.map_ident)
next
  case (Cons l rows)
  define x where "x = currency_compute e (line.currency_id l) (line.amount l) (user_currency e)"
  obtain vd vc where vd: "data_debit (line.account_id l) = Some vd"
    and vc: "data_credit (line.account_id l) = Some vc"
    using Cons.prems by auto
  have amts: "converted_amounts e (l # rows) k =
      (if line.account_id l = k then x # converted_amounts e rows k else converted_amounts e rows k)" for k
    by (simp add: converted_amounts_def x_def)
  show ?case
  proof (cases "x < 0")
    case True
    have "accumulate e (data_debit, data_credit) (l # rows)
        = accumulate e (data_debit(line.account_id l \<mapsto> vd + x), data_credit) rows"
      using True vd by (simp add: x_def [symmetric])
    also have "\<dots> = Inr (\<lambda>k. map_option (\<lambda>v. v + sum_list (filter (\<lambda>x. x < 0) (converted_amounts e rows k)))
                            ((data_debit(line.account_id l \<mapsto> vd + x)) k),
                \<lambda>k. map_option (\<lambda>v. v + sum_list (filter (\<lambda>x. 0 \<le> x) (converted_amounts e rows k))) (data_credit k))"
      using Cons.prems by (intro Cons.IH) auto
    also have "\<dots> = Inr (\<lambda>k. map_option (\<lambda>v. v + sum_list (filter (\<lambda>x. x < 0) (converted_amounts e (l # rows) k))) (data_debit k),
                \<lambda>k. map_option (\<lambda>v. v + sum_list (filter (\<lambda>x. 0 \<le> x) (converted_amounts e (l # rows) k))) (data_credit k))"
      using True vd by (auto simp: amts fun_eq_iff)
    finally show ?thesis .
  next
    case False
    have "accumulate e (data_debit, data_credit) (l # rows)
        = accumulate e (data_debit, data_credit(line.account_id l \<mapsto> vc + x)) rows"
      using False vc by (simp add: x_def [symmetric])
    also have "\<dots> = Inr (\<lambda>k. map_option (\<lambda>v. v + sum_list (filter (\<lambda>x. x < 0) (converted_amounts e rows k))) (data_debit k),
                \<lambda>k. map_option (\<lambda>v. v + sum_list (filter (\<lambda>x. 0 \<le> x) (converted_amounts e rows k)))
                            ((data_credit(line.account_id l \<mapsto> vc + x)) k))"
      using Cons.prems by (intro Cons.IH) auto
    also have "\<dots> = Inr (\<lambda>k. map_option (\<lambda>v. v + sum_list (filter (\<lambda>x. x < 0) (converted_amounts e (l # rows) k))) (data_debit k),
                \<lambda>k. map_option (\<lambda>v. v + sum_list (filter (\<lambda>x. 0 \<le> x) (converted_amounts e (l # rows) k))) (data_credit k))"
      using False vc by (auto simp: amts fun_eq_iff)
    finally show ?thesis .
  qed
qed

lemma map_of_zero:
  "map_of (map (\<lambda>k. (k, 0::real)) ks) k = (if k \<in> set ks then Some 0 else None)"
  by (induction ks) auto

lemma converted_amounts_absent:
  "k \<notin> line.account_id ` set rows \<Longrightarrow> converted_amounts e rows k = []"
  by (auto simp: converted_amounts_def filter_empty_conv)

lemma search_read_debit_credit_balance_domain:
  "search_read (analytic_lines e) (debit_credit_balance_domain (env.context e) self)
     = Inr (matching_lines e self)"
  using domain_stack_debit_credit_balance_domain [of "\<lambda>f operator v. True" "env.context e" self]
  by (auto simp: search_read_def matching_lines_def)

lemma compute_debit_credit_balance_dicts:
  "compute_debit_credit_balance e self =
     Inr (map (set_debit_credit_balance
                 (\<lambda>k. if k \<in> line.account_id ` set (matching_lines e self)
                      then Some (sum_list (filter (\<lambda>x. x < 0) (converted_amounts e (matching_lines e self) k)))
                      else None)
                 (\<lambda>k. if k \<in> line.account_id ` set (matching_lines e self)
                      then Some (sum_list (filter (\<lambda>x. 0 \<le> x) (converted_amounts e (matching_lines e self) k)))
                      else None))
            self)"
proof -
  define rows where "rows = matching_lines e self"
  define d0 where "d0 = map_of (map (\<lambda>account_id. (account_id, 0::real)) (map line.account_id rows))"
  have d0: "d0 k = (if k \<in> line.account_id ` set rows then Some 0 else None)" for k
    unfolding d0_def using map_of_zero [of "map line.account_id rows" k] by simp
  have "\<forall>l \<in> set rows. d0 (line.account_id l) \<noteq> None \<and> d0 (line.account_id l) \<noteq> None"
    by (simp add: d0)
  from accumulate_sums [OF this, of e]
  have "accumulate e (d0, d0) rows =
      Inr (\<lambda>k. map_option (\<lambda>v. v + sum_list (filter (\<lambda>x. x < 0) (converted_amounts e rows k))) (d0 k),
           \<lambda>k. map_option (\<lambda>v. v + sum_list (filter (\<lambda>x. 0 \<le> x) (converted_amounts e rows k))) (d0 k))" .
  moreover have "(\<lambda>k. map_option (\<lambda>v. v + f k) (d0 k))
      = (\<lambda>k. if k \<in> line.account_id ` set rows then Some (f k) else None)" for f :: "nat \<Rightarrow> real"
    by (rule ext) (simp add: d0)
  ultimately have acc: "accumulate e (d0, d0) rows =
      Inr (\<lambda>k. if k \<in> line.account_id ` set rows
                then Some (sum_list (filter (\<lambda>x. x < 0) (converted_amounts e rows k))) else None,
           \<lambda>k. if k \<in> line.account_id ` set rows
                then Some (sum_list (filter (\<lambda>x. 0 \<le> x) (converted_amounts e rows k))) else None)"
    by (simp only:)
  show ?thesis
    using acc unfolding d0_def rows_def
    by (simp only: compute_debit_credit_balance_def search_read_debit_credit_balance_domain
          Let_def sum.case prod.case)
qed

lemma set_debit_credit_balance_sums:
  "set_debit_credit_balance
     (\<lambda>k. if k \<in> line.account_id ` set rows
          then Some (sum_list (filter (\<lambda>x. x < 0) (converted_amounts e rows k))) else None)
     (\<lambda>k. if k \<in> line.account_id ` set rows
          then Some (sum_list (filter (\<lambda>x. 0 \<le> x) (converted_amounts e rows k))) else None)
     a
   = a\<lparr>debit := \<bar>sum_list (filter (\<lambda>x. x < 0) (converted_amounts e rows (account.id a)))\<bar>,
        credit := sum_list (filter (\<lambda>x. 0 \<le> x) (converted_amounts e rows (account.id a))),
        balance := sum_list (filter (\<lambda>x. 0 \<le> x) (converted_amounts e rows (account.id a)))
                   - \<bar>sum_list (filter (\<lambda>x. x < 0) (converted_amounts e rows (account.id a)))\<bar>\<rparr>"
  by (simp add: set_debit_credit_balance_def converted_amounts_absent)

text \<open>
  Claim C1. For every environment and every record set of accounts, the aggregator ends
  without an error and gives each account, as debit, the absolute value of the sum of the
  negative converted amounts of the matching lines of that account, as credit, the sum of
  the converted amounts that are not negative, and as balance, credit minus debit. The
  example of the specification (amounts \<open>-50\<close> and \<open>30\<close>) follows it.
\<close>

theorem compute_debit_credit_balance_sums:
  "compute_debit_credit_balance e self =
     Inr (map (\<lambda>a. a\<lparr>debit := \<bar>sum_list (filter (\<lambda>x. x < 0)
                                   (converted_amounts e (matching_lines e self) (account.id a)))\<bar>,
                     credit := sum_list (filter (\<lambda>x. 0 \<le> x)
                                   (converted_amounts e (matching_lines e self) (account.id a))),
                     balance := sum_list (filter (\<lambda>x. 0 \<le> x)
                                   (converted_amounts e (matching_lines e self) (account.id a)))
                              - \<bar>sum_list (filter (\<lambda>x. x < 0)
                                   (converted_amounts e (matching_lines e self) (account.id a)))\<bar>\<rparr>)
            self)"
  unfolding compute_debit_credit_balance_dicts set_debit_credit_balance_sums ..

theorem compute_debit_credit_balance_sums_witness:
  "compute_debit_credit_balance example_env [account_A] =
     Inr [account_A\<lparr>debit := 50, credit := 30, balance := - 20\<rparr>]"
proof -
  have rows: "matching_lines example_env [account_A] = [line_L1, line_L2]"
    by (simp add: matching_lines_def example_env_def no_context_def account_A_def
          debit_credit_balance_domain_def domain_holds_def domain_stack_def line_leaf_def
          line_L1_def line_L2_def)
  have amounts: "converted_amounts example_env [line_L1, line_L2] (account.id account_A) = [- 50, 30]"
    by (simp add: converted_amounts_def example_env_def account_A_def line_L1_def line_L2_def)
  show ?thesis
    unfolding compute_debit_credit_balance_sums rows
    by (simp add: amounts)
qed

text \<open>
  Claim C8. An account of the computed record set that has no matching line gets debit,
  credit and balance \<open>0\<close>.
\<close>

theorem compute_debit_credit_balance_no_lines:
  assumes "i < length self"
      and "\<forall>l \<in> set (matching_lines e self). line.account_id l \<noteq> account.id (self ! i)"
  shows "\<exists>res. compute_debit_credit_balance e self = Inr res \<and> length res = length self
           \<and> account.id (res ! i) = account.id (self ! i)
           \<and> account.debit (res ! i) = 0 \<and> account.credit (res ! i) = 0
           \<and> account.balance (res ! i) = 0"
proof -
  have "account.id (self ! i) \<notin> line.account_id ` set (matching_lines e self)"
    using assms(2) by auto
  then have "converted_amounts e (matching_lines e self) (account.id (self ! i)) = []"
    by (rule converted_amounts_absent)
  then show ?thesis
    using assms(1)
    by (simp add: compute_debit_credit_balance_dicts set_debit_credit_balance_sums)
qed

theorem compute_debit_credit_balance_no_lines_witness:
  "1 < length [account_A, account_B]
   \<and> list_all (\<lambda>l. line.account_id l \<noteq> account.id ([account_A, account_B] ! 1))
         (matching_lines example_env [account_A, account_B])
   \<and> (\<exists>res. compute_debit_credit_balance example_env [account_A, account_B] = Inr res
          \<and> length res = length [account_A, account_B]
          \<and> account.id (res ! 1) = account.id ([account_A, account_B] ! 1)
          \<and> account.debit (res ! 1) = 0 \<and> account.credit (res ! 1) = 0
          \<and> account.balance (res ! 1) = 0)"
proof -
  have h1: "1 < length [account_A, account_B]" by simp
  have rows: "matching_lines example_env [account_A, account_B] = [line_L1, line_L2]"
    by (simp add: matching_lines_def example_env_def no_context_def account_A_def account_B_def
          debit_credit_balance_domain_def domain_holds_def domain_stack_def line_leaf_def
          line_L1_def line_L2_def)
  have h2: "\<forall>l \<in> set (matching_lines example_env [account_A, account_B]).
          line.account_id l \<noteq> account.id ([account_A, account_B] ! 1)"
    unfolding rows by (simp add: line_L1_def line_L2_def account_B_def)
  have h2': "list_all (\<lambda>l. line.account_id l \<noteq> account.id ([account_A, account_B] ! 1))
         (matching_lines example_env [account_A, account_B])"
    using h2 by (simp only: list_all_iff)
  from compute_debit_credit_balance_no_lines [OF h1 h2] h1 h2' show ?thesis
    by (intro conjI)
qed

text \<open>
  Claim C9. Whatever the lines and the conversion, the aggregator ends without an error
  and returns the accounts of the record set, the same identifiers in the same order,
  each with a debit and a credit that are not negative.
\<close>

theorem compute_debit_credit_balance_nonneg:
  "\<exists>res. compute_debit_credit_balance e self = Inr res
     \<and> map account.id res = map account.id self
     \<and> (\<forall>a \<in> set res. 0 \<le> account.debit a \<and> 0 \<le> account.credit a)"
proof -
  have "0 \<le> sum_list (filter (\<lambda>x. 0 \<le> x) xs)" for xs :: "real list"
    by (rule sum_list_nonneg) simp
  then show ?thesis
    by (simp add: compute_debit_credit_balance_dicts set_debit_credit_balance_sums)
qed

theorem compute_debit_credit_balance_nonneg_witness:
  "\<exists>res. compute_debit_credit_balance example_env [account_A, account_B] = Inr res
     \<and> map account.id res = [1, 2]
     \<and> (\<forall>a \<in> set res. 0 \<le> account.debit a \<and> 0 \<le> account.credit a)"
  using compute_debit_credit_balance_nonneg [of example_env "[account_A, account_B]"]
  by (simp add: account_A_def account_B_def)

section \<open>Properties of the distribution percentage\<close>

text \<open>
  Claim C4. For every percentage \<open>p\<close>, the creation of a distribution with that
  percentage succeeds exactly when \<open>0 \<le> p \<le> 100\<close>; the data store adds the row then, and
  refuses it with a validation error otherwise.
\<close>

theorem create_distribution_percentage:
  "((\<exists>table'. create_distribution table
                \<lparr>distribution.account_id = a, percentage = p, tag_id = t\<rparr> = Inr table')
      \<longleftrightarrow> 0 \<le> p \<and> p \<le> 100)
   \<and> (create_distribution table \<lparr>distribution.account_id = a, percentage = p, tag_id = t\<rparr>
        = (if 0 \<le> p \<and> p \<le> 100
           then Inr (table @ [\<lparr>distribution.account_id = a, percentage = p, tag_id = t\<rparr>])
           else Inl ValidationError))"
  by (simp add: create_distribution_def sql_constraints_def check_percentage_def)

theorem create_distribution_percentage_witness:
  "(\<exists>table'. create_distribution [] \<lparr>distribution.account_id = 1, percentage = 0, tag_id = 1\<rparr> = Inr table')
   \<and> (\<exists>table'. create_distribution [] \<lparr>distribution.account_id = 1, percentage = 100, tag_id = 1\<rparr> = Inr table')
   \<and> create_distribution [] \<lparr>distribution.account_id = 1, percentage = 101, tag_id = 1\<rparr> = Inl ValidationError
   \<and> create_distribution [] \<lparr>distribution.account_id = 1, percentage = - 1, tag_id = 1\<rparr> = Inl ValidationError"
  using create_distribution_percentage [of "[]" 1 0 1]
    create_distribution_percentage [of "[]" 1 100 1]
    create_distribution_percentage [of "[]" 1 101 1]
    create_distribution_percentage [of "[]" 1 "- 1" 1]
  by simp

section \<open>Properties of the complete name\<close>

lemma compute_complete_name_append:
  "compute_complete_name s (xs @ ys) =
     (case compute_complete_name s xs of Inl err \<Rightarrow> Inl err | Inr s1 \<Rightarrow> compute_complete_name s1 ys)"
  by (induction xs arbitrary: s) (simp_all split: option.split)

lemma compute_complete_name_frame:
  "compute_complete_name s xs = Inr s' \<Longrightarrow>
     (\<forall>k. k \<notin> set xs \<longrightarrow> s' k = s k)
     \<and> (\<forall>k. map_option group.name (s' k) = map_option group.name (s k))
     \<and> (\<forall>k. map_option group.parent_id (s' k) = map_option group.parent_id (s k))"
proof (induction xs arbitrary: s)
  case Nil
  then show ?case by simp
next
  case (Cons g xs)
  from Cons.prems obtain grp where grp: "s g = Some grp"
    by (auto split: option.splits)
  define grp' where "grp' = (case group.parent_id grp of
       Some p \<Rightarrow> (case s p of Some parent \<Rightarrow>
           grp\<lparr>complete_name := group.complete_name parent @ '' / '' @ group.name grp\<rparr> | None \<Rightarrow> grp)
     | None \<Rightarrow> grp\<lparr>complete_name := group.name grp\<rparr>)"
  have run: "compute_complete_name (s(g \<mapsto> grp')) xs = Inr s'"
    using Cons.prems grp by (auto simp: grp'_def split: option.splits)
  have same: "group.name grp' = group.name grp" "group.parent_id grp' = group.parent_id grp"
    by (simp_all add: grp'_def split: option.splits)
  from Cons.IH [OF run]
  have ih: "\<forall>k. k \<notin> set xs \<longrightarrow> s' k = (s(g \<mapsto> grp')) k"
    "\<forall>k. map_option group.name (s' k) = map_option group.name ((s(g \<mapsto> grp')) k)"
    "\<forall>k. map_option group.parent_id (s' k) = map_option group.parent_id ((s(g \<mapsto> grp')) k)"
    by blast+
  show ?case
  proof (intro conjI allI impI)
    fix k assume "k \<notin> set (g # xs)"
    then show "s' k = s k" using ih(1) by simp
  next
    fix k show "map_option group.name (s' k) = map_option group.name (s k)"
      using ih(2) [rule_format, of k] grp same by (cases "k = g") simp_all
  next
    fix k show "map_option group.parent_id (s' k) = map_option group.parent_id (s k)"
      using ih(3) [rule_format, of k] grp same by (cases "k = g") simp_all
  qed
qed

lemma groups_present_cong:
  "\<forall>k. map_option group.parent_id (s' k) = map_option group.parent_id (s k) \<Longrightarrow>
   groups_present s' xs = groups_present s xs"
proof (induction xs)
  case Nil
  then show ?case by simp
next
  case (Cons g xs)
  have dom: "s' k = None \<longleftrightarrow> s k = None" for k
    using Cons.prems [rule_format, of k] by (cases "s' k"; cases "s k") simp_all
  have par: "s' k = Some a \<Longrightarrow> s k = Some b \<Longrightarrow> group.parent_id a = group.parent_id b" for k a b
    using Cons.prems [rule_format, of k] by simp
  have "(case s' g of None \<Rightarrow> False
          | Some grp \<Rightarrow> (case group.parent_id grp of None \<Rightarrow> True | Some p \<Rightarrow> s' p \<noteq> None))
      = (case s g of None \<Rightarrow> False
          | Some grp \<Rightarrow> (case group.parent_id grp of None \<Rightarrow> True | Some p \<Rightarrow> s p \<noteq> None))"
  proof (cases "s g")
    case None
    then have "s' g = None" using dom [of g] by simp
    with None show ?thesis by simp
  next
    case (Some b)
    then obtain a where a: "s' g = Some a" using dom [of g] by (cases "s' g") simp_all
    have ab: "group.parent_id a = group.parent_id b" using par [OF a Some] .
    show ?thesis
    proof (cases "group.parent_id b")
      case None
      then show ?thesis using a Some ab by simp
    next
      case (Some p)
      then show ?thesis using a \<open>s g = Some b\<close> ab dom [of p] by simp
    qed
  qed
  then show ?case using Cons by simp
qed

lemma groups_present_append:
  "groups_present s (xs @ ys) \<longleftrightarrow> groups_present s xs \<and> groups_present s ys"
  by (induction xs) auto

lemma compute_complete_name_succeeds:
  "groups_present s xs \<Longrightarrow> \<exists>s'. compute_complete_name s xs = Inr s'"
proof (induction xs arbitrary: s)
  case Nil
  then show ?case by simp
next
  case (Cons g xs)
  from Cons.prems obtain grp where grp: "s g = Some grp"
    by (auto split: option.splits)
  show ?case
  proof (cases "group.parent_id grp")
    case None
    have "groups_present (s(g \<mapsto> grp\<lparr>complete_name := group.name grp\<rparr>)) xs = groups_present s xs"
      by (rule groups_present_cong) (simp add: grp)
    then show ?thesis
      using Cons.prems grp None Cons.IH by simp
  next
    case (Some p)
    with Cons.prems grp obtain parent where parent: "s p = Some parent"
      by auto
    have "groups_present (s(g \<mapsto> grp\<lparr>complete_name := group.complete_name parent @ '' / '' @ group.name grp\<rparr>)) xs
        = groups_present s xs"
      by (rule groups_present_cong) (simp add: grp)
    then show ?thesis
      using Cons.prems grp Some parent Cons.IH by simp
  qed
qed

text \<open>
  Claim C2. Take a run of the method over a record set whose records, and their parents,
  are in the table, and a group \<open>g\<close> of the record set; \<open>pre\<close> is what the run visits before
  the last visit of \<open>g\<close> and \<open>post\<close> what it visits after. The run ends without an error
  and leaves the name and the parent of \<open>g\<close> as they were. When \<open>g\<close> has no parent, its
  complete name is its name. When \<open>g\<close> has a parent, its complete name is the complete name
  that the parent has when the run reaches \<open>g\<close>, followed by \<open>'' / ''\<close>, followed by the
  name of \<open>g\<close>; and the parent still has that complete name at the end of the run when it
  is another group that the run does not visit after \<open>g\<close>.
\<close>

theorem compute_complete_name_path:
  assumes present: "groups_present s (pre @ g # post)"
      and last: "g \<notin> set post"
      and grp: "s g = Some grp"
  shows "\<exists>s1 s' grp'. compute_complete_name s pre = Inr s1
           \<and> compute_complete_name s (pre @ g # post) = Inr s' \<and> s' g = Some grp'
           \<and> group.name grp' = group.name grp \<and> group.parent_id grp' = group.parent_id grp
           \<and> (case group.parent_id grp of
                 None \<Rightarrow> group.complete_name grp' = group.name grp
               | Some p \<Rightarrow> (\<exists>parent. s1 p = Some parent
                    \<and> group.complete_name grp' = group.complete_name parent @ '' / '' @ group.name grp
                    \<and> (p \<noteq> g \<and> p \<notin> set post \<longrightarrow> s' p = Some parent)))"
proof -
  from present have p_pre: "groups_present s pre" and p_post: "groups_present s (g # post)"
    by (simp_all add: groups_present_append)
  from compute_complete_name_succeeds [OF p_pre]
  obtain s1 where s1: "compute_complete_name s pre = Inr s1" by blast
  from compute_complete_name_frame [OF s1]
  have names1: "\<forall>k. map_option group.name (s1 k) = map_option group.name (s k)"
    and parents1: "\<forall>k. map_option group.parent_id (s1 k) = map_option group.parent_id (s k)"
    by blast+
  from names1 [rule_format, of g] parents1 [rule_format, of g] grp
  obtain grp1 where grp1: "s1 g = Some grp1"
    and same1: "group.name grp1 = group.name grp" "group.parent_id grp1 = group.parent_id grp"
    by (cases "s1 g") simp_all
  have p1: "groups_present s1 (g # post)"
    using p_post by (simp only: groups_present_cong [OF parents1])
  define new where "new = (case group.parent_id grp of
       None \<Rightarrow> group.name grp
     | Some p \<Rightarrow> (case s1 p of Some parent \<Rightarrow> group.complete_name parent @ '' / '' @ group.name grp
                  | None \<Rightarrow> []))"
  define s2 where "s2 = s1(g \<mapsto> grp1\<lparr>complete_name := new\<rparr>)"
  have step: "compute_complete_name s1 (g # post) = compute_complete_name s2 post"
    using p1 grp1 same1 by (auto simp: s2_def new_def split: option.splits)
  have parents2: "\<forall>k. map_option group.parent_id (s2 k) = map_option group.parent_id (s1 k)"
    by (simp add: s2_def grp1)
  have "groups_present s2 post"
    using p1 by (simp add: groups_present_cong [OF parents2])
  from compute_complete_name_succeeds [OF this]
  obtain s' where s': "compute_complete_name s2 post = Inr s'" by blast
  from compute_complete_name_frame [OF s']
  have frame: "\<forall>k. k \<notin> set post \<longrightarrow> s' k = s2 k" by blast
  have run: "compute_complete_name s (pre @ g # post) = Inr s'"
    by (simp add: compute_complete_name_append s1 step s' del: compute_complete_name.simps)
  have g': "s' g = Some (grp1\<lparr>complete_name := new\<rparr>)"
    using frame last by (simp add: s2_def)
  show ?thesis
  proof (cases "group.parent_id grp")
    case None
    then show ?thesis
      using s1 run g' same1 by (simp add: new_def)
  next
    case (Some p)
    have sp: "p \<noteq> g \<and> p \<notin> set post \<longrightarrow> s' p = s1 p"
      using frame by (simp add: s2_def)
    from p1 grp1 same1 Some obtain par where par: "s1 p = Some par"
      by auto
    show ?thesis
      using s1 run g' same1 Some sp par by (simp add: new_def)
  qed
qed

theorem compute_complete_name_path_witness:
  "groups_present example_groups ([1] @ 2 # [])
   \<and> 2 \<notin> set ([] :: nat list)
   \<and> example_groups 2 = Some \<lparr>group.id = 2, name = ''Internal'', parent_id = Some 1, complete_name = []\<rparr>
   \<and> (\<exists>s' grp' parent. compute_complete_name example_groups ([1] @ 2 # []) = Inr s'
          \<and> s' 2 = Some grp' \<and> s' 1 = Some parent
          \<and> group.name grp' = ''Internal'' \<and> group.parent_id grp' = Some 1
          \<and> group.complete_name grp' = group.complete_name parent @ '' / '' @ ''Internal'')"
proof -
  have h1: "groups_present example_groups ([1] @ 2 # [])"
    by (simp add: example_groups_def)
  have h2: "2 \<notin> set ([] :: nat list)" by simp
  have h3: "example_groups 2 = Some \<lparr>group.id = 2, name = ''Internal'', parent_id = Some 1, complete_name = []\<rparr>"
    by (simp add: example_groups_def)
  from compute_complete_name_path [OF h1 h2 h3] h1 h2 h3 show ?thesis
    by auto
qed

section \<open>Properties of the display name and of the search by name\<close>

text \<open>
  Claim C5. For every account, \<^verbatim>\<open>name_get\<close> pairs the identifier with the label made of
  the code between brackets and a space (left out when the code is missing or empty), the
  name, and \<open>'' - ''\<close> with the commercial partner's name (left out when no partner is
  linked).
\<close>

theorem name_get_label:
  "name_get partner_name self =
     map (\<lambda>a. (account.id a,
               (case account.code a of Some (c # cs) \<Rightarrow> ''['' @ (c # cs) @ ''] '' | _ \<Rightarrow> [])
               @ account.name a
               @ (case account.partner_id a of Some p \<Rightarrow> '' - '' @ partner_name p | None \<Rightarrow> [])))
       self"
  by (simp add: name_get_def Let_def split: option.split list.split)

theorem name_get_label_witness:
  "name_get (\<lambda>p. ''Acme'') [sales_X1, sales_plain] = [(1, ''[X1] Sales - Acme''), (2, ''Sales'')]"
  unfolding name_get_label
  by (simp add: sales_X1_def sales_plain_def)

lemma domain_holds_append_or3:
  "domain_holds sem (OR_OPERATOR # OR_OPERATOR # Leaf f1 o1 v1 # Leaf f2 o2 v2 # Leaf f3 o3 v3 # args)
     = map_option (\<lambda>b. (sem f1 o1 v1 \<or> sem f2 o2 v2 \<or> sem f3 o3 v3) \<and> b) (domain_holds sem args)"
  by (cases "foldr (push_term sem) args (Some [])") (auto simp: domain_holds_def domain_stack_def)

lemma domain_holds_append_or2:
  "domain_holds sem (OR_OPERATOR # Leaf f1 o1 v1 # Leaf f2 o2 v2 # args)
     = map_option (\<lambda>b. (sem f1 o1 v1 \<or> sem f2 o2 v2) \<and> b) (domain_holds sem args)"
  by (cases "foldr (push_term sem) args (Some [])") (auto simp: domain_holds_def domain_stack_def)

text \<open>
  Claim C6. With an operator outside \<^verbatim>\<open>('ilike', 'like', '=', '=like', '=ilike')\<close>,
  \<^verbatim>\<open>name_search\<close> returns what the default lookup of the framework returns, with the same
  arguments. With an operator of that set it returns the display names of the accounts
  found, with the given limit, by a filter that holds exactly when the code matches, or
  the name matches, or the partner is one of those that the lookup of partners by name
  (with the same operator and limit) has returned, and the caller's own filter holds.
\<close>

theorem name_search_operator:
  "(operator \<notin> {''ilike'', ''like'', ''='', ''=like'', ''=ilike''} \<longrightarrow>
      name_search fw name' args operator limit = super_name_search fw name' args operator limit)
   \<and> (operator \<in> {''ilike'', ''like'', ''='', ''=like'', ''=ilike''} \<longrightarrow>
      (\<exists>d. name_search fw name' args operator limit
              = name_get (commercial_partner_name fw)
                  (account_search fw (d @ (case args of Some a \<Rightarrow> a | None \<Rightarrow> [])) limit)
          \<and> (\<forall>sem. domain_holds sem (d @ (case args of Some a \<Rightarrow> a | None \<Rightarrow> []))
                 = map_option
                     (\<lambda>b. (sem ''code'' operator (Str name') \<or> sem ''name'' operator (Str name')
                            \<or> (partner_search fw [Leaf ''name'' operator (Str name')] limit \<noteq> []
                               \<and> sem ''partner_id'' ''in''
                                     (Ids (partner_search fw [Leaf ''name'' operator (Str name')] limit))))
                          \<and> b)
                     (domain_holds sem (case args of Some a \<Rightarrow> a | None \<Rightarrow> [])))))"
proof (intro conjI impI)
  assume "operator \<notin> {''ilike'', ''like'', ''='', ''=like'', ''=ilike''}"
  then show "name_search fw name' args operator limit = super_name_search fw name' args operator limit"
    by (simp add: name_search_def)
next
  assume op: "operator \<in> {''ilike'', ''like'', ''='', ''=like'', ''=ilike''}"
  define partners where "partners = partner_search fw [Leaf ''name'' operator (Str name')] limit"
  define args' where "args' = (case args of Some a \<Rightarrow> a | None \<Rightarrow> [])"
  define d where "d = (if partners \<noteq> []
       then [OR_OPERATOR, OR_OPERATOR, Leaf ''code'' operator (Str name'),
             Leaf ''name'' operator (Str name'), Leaf ''partner_id'' ''in'' (Ids partners)]
       else [OR_OPERATOR, Leaf ''code'' operator (Str name'), Leaf ''name'' operator (Str name')])"
  have run: "name_search fw name' args operator limit
      = name_get (commercial_partner_name fw) (account_search fw (d @ args') limit)"
    using op by (simp add: name_search_def Let_def partners_def [symmetric] args'_def [symmetric] d_def)
  have sem: "domain_holds sem (d @ args')
      = map_option
          (\<lambda>b. (sem ''code'' operator (Str name') \<or> sem ''name'' operator (Str name')
                  \<or> (partners \<noteq> [] \<and> sem ''partner_id'' ''in'' (Ids partners))) \<and> b)
          (domain_holds sem args')" for sem
  proof (cases "partners = []")
    case True
    then show ?thesis by (simp add: d_def domain_holds_append_or2)
  next
    case False
    then show ?thesis by (simp add: d_def domain_holds_append_or3)
  qed
  show "\<exists>d. name_search fw name' args operator limit
          = name_get (commercial_partner_name fw)
              (account_search fw (d @ (case args of Some a \<Rightarrow> a | None \<Rightarrow> [])) limit)
      \<and> (\<forall>sem. domain_holds sem (d @ (case args of Some a \<Rightarrow> a | None \<Rightarrow> []))
             = map_option
                 (\<lambda>b. (sem ''code'' operator (Str name') \<or> sem ''name'' operator (Str name')
                        \<or> (partner_search fw [Leaf ''name'' operator (Str name')] limit \<noteq> []
                           \<and> sem ''partner_id'' ''in''
                                 (Ids (partner_search fw [Leaf ''name'' operator (Str name')] limit))))
                      \<and> b)
                 (domain_holds sem (case args of Some a \<Rightarrow> a | None \<Rightarrow> [])))"
    using run sem unfolding partners_def args'_def by blast
qed

theorem name_search_operator_witness:
  "''not ilike'' \<notin> {''ilike'', ''like'', ''='', ''=like'', ''=ilike''}
   \<and> name_search example_framework ''Sales'' None ''not ilike'' (Some 100)
       = super_name_search example_framework ''Sales'' None ''not ilike'' (Some 100)
   \<and> ''='' \<in> {''ilike'', ''like'', ''='', ''=like'', ''=ilike''}
   \<and> (\<exists>d. name_search example_framework ''Sales'' None ''='' (Some 100)
              = name_get (commercial_partner_name example_framework)
                  (account_search example_framework (d @ []) (Some 100))
          \<and> (\<forall>sem. domain_holds sem (d @ [])
                 = Some (sem ''code'' ''='' (Str ''Sales'') \<or> sem ''name'' ''='' (Str ''Sales'')
                         \<or> sem ''partner_id'' ''in'' (Ids [7]))))"
proof -
  have h1: "''not ilike'' \<notin> {''ilike'', ''like'', ''='', ''=like'', ''=ilike''}" by simp
  have h2: "''='' \<in> {''ilike'', ''like'', ''='', ''=like'', ''=ilike''}" by simp
  have ps: "partner_search example_framework d limit = [7]" for d limit
    by (simp add: example_framework_def)
  have dh: "domain_holds sem [] = Some True" for sem
    by (simp add: domain_holds_def domain_stack_def)
  from name_search_operator [of "''not ilike''" example_framework "''Sales''" None "Some 100"] h1
  have a: "name_search example_framework ''Sales'' None ''not ilike'' (Some 100)
       = super_name_search example_framework ''Sales'' None ''not ilike'' (Some 100)"
    by blast
  from name_search_operator [of "''=''" example_framework "''Sales''" None "Some 100"] h2
  have b: "\<exists>d. name_search example_framework ''Sales'' None ''='' (Some 100)
              = name_get (commercial_partner_name example_framework)
                  (account_search example_framework (d @ []) (Some 100))
          \<and> (\<forall>sem. domain_holds sem (d @ [])
                 = Some (sem ''code'' ''='' (Str ''Sales'') \<or> sem ''name'' ''='' (Str ''Sales'')
                         \<or> sem ''partner_id'' ''in'' (Ids [7])))"
    by (simp add: ps dh)
  from h1 a h2 b show ?thesis by (intro conjI)
qed

section \<open>Properties of the analytic lines\<close>

text \<open>
  Claim C10. A line created without the key \<^verbatim>\<open>user_id\<close> gets, as its user, the value of
  the key \<^verbatim>\<open>user_id\<close> of the context when the context holds that key, and the acting
  user's identifier otherwise.
\<close>

theorem create_user_id_default:
  "default_user e = (case context.user_id (env.context e) of Some u \<Rightarrow> u | None \<Rightarrow> uid e)
   \<and> create_user_id e None =
       Some (case context.user_id (env.context e) of Some u \<Rightarrow> u | None \<Rightarrow> uid e)"
  by (simp add: create_user_id_def default_user_def)

theorem create_user_id_default_witness:
  "create_user_id example_env None = Some 3
   \<and> create_user_id (example_env\<lparr>context := full_context\<rparr>) None = Some 9"
  using create_user_id_default [of example_env]
    create_user_id_default [of "example_env\<lparr>context := full_context\<rparr>"]
  by (simp add: example_env_def no_context_def full_context_def)

text \<open>
  Claim C3. On lines whose accounts are in the table, the company check raises a
  validation error exactly when one of the lines has an account with a company and a
  company of its own that differs from it; it passes when, for every line, the account has
  no company or the two companies are equal.
\<close>

theorem check_company_id_validation:
  assumes "\<forall>l \<in> set self. accounts (line.account_id l) \<noteq> None"
  shows "check_company_id accounts self =
     (if \<exists>l \<in> set self. \<exists>a c. accounts (line.account_id l) = Some a \<and> account.company_id a = Some c
            \<and> line.company_id l \<noteq> c
      then Inl ValidationError else Inr ())"
  using assms
  by (induction self) (auto split: option.splits)

theorem check_company_id_validation_witness:
  "check_company_id [1 \<mapsto> account_A] [line_L1\<lparr>company_id := 2\<rparr>] = Inl ValidationError
   \<and> check_company_id [1 \<mapsto> account_A] [line_L1, line_L2] = Inr ()
   \<and> check_company_id [2 \<mapsto> account_B] [line_L1\<lparr>account_id := 2\<rparr>] = Inr ()"
proof -
  have h1: "\<forall>l \<in> set [line_L1\<lparr>company_id := 2\<rparr>]. [1 \<mapsto> account_A] (line.account_id l) \<noteq> None"
    by (simp add: line_L1_def)
  have h2: "\<forall>l \<in> set [line_L1, line_L2]. [1 \<mapsto> account_A] (line.account_id l) \<noteq> None"
    by (simp add: line_L1_def line_L2_def)
  have h3: "\<forall>l \<in> set [line_L1\<lparr>account_id := 2\<rparr>]. [2 \<mapsto> account_B] (line.account_id l) \<noteq> None"
    by (simp add: line_L1_def)
  have c1: "check_company_id [1 \<mapsto> account_A] [line_L1\<lparr>company_id := 2\<rparr>] = Inl ValidationError"
    unfolding check_company_id_validation [OF h1]
    by (simp add: line_L1_def account_A_def)
  have c2: "check_company_id [1 \<mapsto> account_A] [line_L1, line_L2] = Inr ()"
    unfolding check_company_id_validation [OF h2]
    by (simp add: line_L1_def line_L2_def account_A_def)
  have c3: "check_company_id [2 \<mapsto> account_B] [line_L1\<lparr>account_id := 2\<rparr>] = Inr ()"
    unfolding check_company_id_validation [OF h3]
    by (simp add: line_L1_def account_B_def)
  from c1 c2 c3 show ?thesis by (intro conjI)
qed

end
